theory Spec2Isabelle
  imports Complex_Main "HOL-Library.Multiset"
begin

section \<open>JavaScript values\<close>

subsection \<open>Numbers\<close>

text \<open>
  A JavaScript Number is modelled as an exact rational or one of the three non-finite
  values. Rounding to 64-bit binary floating point and the sign of zero are outside the
  model; what the code below depends on (\<open>0 / 0\<close> is \<open>NaN\<close>, \<open>NaN\<close> compares false with
  everything, \<open>NaN || 0\<close> is \<open>0\<close>) is inside it.
\<close>

datatype number = Fin rat | PosInf | NegInf | NaN

fun number_add :: "number \<Rightarrow> number \<Rightarrow> number" where
  "number_add NaN y = NaN"
| "number_add x NaN = NaN"
| "number_add PosInf NegInf = NaN"
| "number_add NegInf PosInf = NaN"
| "number_add PosInf y = PosInf"
| "number_add x PosInf = PosInf"
| "number_add NegInf y = NegInf"
| "number_add x NegInf = NegInf"
| "number_add (Fin a) (Fin b) = Fin (a + b)"

fun number_neg :: "number \<Rightarrow> number" where
  "number_neg (Fin a) = Fin (- a)"
| "number_neg PosInf = NegInf"
| "number_neg NegInf = PosInf"
| "number_neg NaN = NaN"

definition number_sub :: "number \<Rightarrow> number \<Rightarrow> number" where
  "number_sub x y = number_add x (number_neg y)"

fun number_div :: "number \<Rightarrow> number \<Rightarrow> number" where
  "number_div NaN y = NaN"
| "number_div x NaN = NaN"
| "number_div (Fin a) (Fin b) =
     (if b = 0 then (if a = 0 then NaN else if 0 < a then PosInf else NegInf)
      else Fin (a / b))"
| "number_div (Fin a) y = Fin 0"
| "number_div PosInf (Fin b) = (if b < 0 then NegInf else PosInf)"
| "number_div NegInf (Fin b) = (if b < 0 then PosInf else NegInf)"
| "number_div x y = NaN"

text \<open>\<open>x < y\<close> on Numbers; \<open>x > y\<close> is \<open>y < x\<close>, and \<open>x <= y\<close> is false when either side
  is \<open>NaN\<close> and \<open>\<not> y < x\<close> otherwise.\<close>

fun number_lt :: "number \<Rightarrow> number \<Rightarrow> bool" where
  "number_lt NaN y = False"
| "number_lt x NaN = False"
| "number_lt (Fin a) (Fin b) = (a < b)"
| "number_lt x NegInf = False"
| "number_lt NegInf y = True"
| "number_lt PosInf y = False"
| "number_lt x PosInf = True"

definition number_gt :: "number \<Rightarrow> number \<Rightarrow> bool" where
  "number_gt x y = number_lt y x"

definition number_le :: "number \<Rightarrow> number \<Rightarrow> bool" where
  "number_le x y = (x \<noteq> NaN \<and> y \<noteq> NaN \<and> \<not> number_lt y x)"

text \<open>\<open>Math.round\<close> rounds to the nearest integer, a half towards plus infinity;
  \<open>Math.ceil\<close> and \<open>Math.max\<close> as in the language.\<close>

fun Math_round :: "number \<Rightarrow> number" where
  "Math_round (Fin a) = Fin (of_int \<lfloor>a + 1 / 2\<rfloor>)"
| "Math_round x = x"

fun Math_ceil :: "number \<Rightarrow> number" where
  "Math_ceil (Fin a) = Fin (of_int \<lceil>a\<rceil>)"
| "Math_ceil x = x"

definition Math_max :: "number \<Rightarrow> number \<Rightarrow> number" where
  "Math_max x y = (if x = NaN \<or> y = NaN then NaN else if number_lt x y then y else x)"

subsection \<open>Values, objects and exceptions\<close>

text \<open>
  A value is a primitive, an array, a plain object or a \<open>Date\<close> (its time value in
  milliseconds, \<open>NaN\<close> for an invalid date). An object is the map from the names of its
  own properties to their values: reading a property it does not have gives
  \<open>undefined\<close>. The order in which the keys of an object were inserted and the
  properties inherited from a prototype are outside the model.
\<close>

datatype jsval =
    Undefined
  | Null
  | Bool bool
  | Num number
  | Str string
  | Arr "jsval list"
  | Obj "string \<Rightarrow> jsval option"
  | DateV number

type_synonym object = "string \<Rightarrow> jsval option"

definition get :: "object \<Rightarrow> string \<Rightarrow> jsval" where
  "get obj k = (case obj k of None \<Rightarrow> Undefined | Some v \<Rightarrow> v)"

text \<open>The exceptions the code can raise: the language's \<open>Error\<close>, \<open>TypeError\<close> and
  \<open>SyntaxError\<close>, and \<open>AppError\<close> of \<open>error-handler.js\<close> with its type tag, severity and
  details.\<close>

datatype js_error =
    Error (message: string)
  | TypeError (message: string)
  | SyntaxError (message: string)
  | AppError (message: string) (errtype: string) (severity: string) (details: jsval)

definition ErrorTypes_VALIDATION :: string where
  "ErrorTypes_VALIDATION = ''VALIDATION_ERROR''"

definition ErrorTypes_FILE_SYSTEM :: string where
  "ErrorTypes_FILE_SYSTEM = ''FILE_SYSTEM_ERROR''"

definition ErrorSeverity_MEDIUM :: string where
  "ErrorSeverity_MEDIUM = ''medium''"

subsection \<open>The runtime's built-in conversions\<close>

text \<open>
  The conversions between numbers, strings and dates, \<open>trim\<close>, \<open>toLowerCase\<close> and the
  replacement of runs of white space (\<open>replace(/\s+/g, r)\<close>) belong to the JavaScript
  runtime, not to this repository. They are parameters of the model: every function
  that may reach one takes the runtime \<open>rt\<close>, and every theorem holds for every runtime.
  \<open>now\<close> is the clock (\<open>new Date()\<close>, read once), \<open>now_iso\<close> its \<open>toISOString()\<close>.
\<close>

record runtime =
  NumberToString :: "number \<Rightarrow> string"
  StringToNumber :: "string \<Rightarrow> number"
  DateToString :: "number \<Rightarrow> string"
  DateParse :: "string \<Rightarrow> number"
  parseFloat_string :: "string \<Rightarrow> number"
  trim :: "string \<Rightarrow> string"
  toLowerCase :: "string \<Rightarrow> string"
  replace_whitespace_runs :: "string \<Rightarrow> string \<Rightarrow> string"
  now :: number
  now_iso :: string

fun join_with :: "string \<Rightarrow> string list \<Rightarrow> string" where
  "join_with sep [] = []"
| "join_with sep [x] = x"
| "join_with sep (x # y # ys) = x @ sep @ join_with sep (y # ys)"

fun ToString :: "runtime \<Rightarrow> jsval \<Rightarrow> string" where
  "ToString rt Undefined = ''undefined''"
| "ToString rt Null = ''null''"
| "ToString rt (Bool b) = (if b then ''true'' else ''false'')"
| "ToString rt (Num n) = NumberToString rt n"
| "ToString rt (Str s) = s"
| "ToString rt (Arr xs) =
     join_with '','' (map (\<lambda>x. if x = Undefined \<or> x = Null then [] else ToString rt x) xs)"
| "ToString rt (Obj m) = ''[object Object]''"
| "ToString rt (DateV t) = DateToString rt t"

fun ToNumber :: "runtime \<Rightarrow> jsval \<Rightarrow> number" where
  "ToNumber rt Undefined = NaN"
| "ToNumber rt Null = Fin 0"
| "ToNumber rt (Bool b) = (if b then Fin 1 else Fin 0)"
| "ToNumber rt (Num n) = n"
| "ToNumber rt (Str s) = StringToNumber rt s"
| "ToNumber rt (DateV t) = t"
| "ToNumber rt v = StringToNumber rt (ToString rt v)"

fun ToBoolean :: "jsval \<Rightarrow> bool" where
  "ToBoolean Undefined = False"
| "ToBoolean Null = False"
| "ToBoolean (Bool b) = b"
| "ToBoolean (Num n) = (n \<noteq> Fin 0 \<and> n \<noteq> NaN)"
| "ToBoolean (Str s) = (s \<noteq> [])"
| "ToBoolean v = True"

text \<open>\<open>ToPrimitive\<close> without a hint, as \<open>+\<close> applies it: an array or object becomes its
  string, and so does a date.\<close>

fun ToPrimitive :: "runtime \<Rightarrow> jsval \<Rightarrow> jsval" where
  "ToPrimitive rt (Arr xs) = Str (ToString rt (Arr xs))"
| "ToPrimitive rt (Obj m) = Str (ToString rt (Obj m))"
| "ToPrimitive rt (DateV t) = Str (ToString rt (DateV t))"
| "ToPrimitive rt v = v"

definition ToPropertyKey :: "runtime \<Rightarrow> jsval \<Rightarrow> string" where
  "ToPropertyKey rt v = ToString rt v"

fun is_Str :: "jsval \<Rightarrow> bool" where
  "is_Str (Str s) = True"
| "is_Str v = False"

text \<open>\<open>a || b\<close>, \<open>a + b\<close>, \<open>a / b\<close> and the postfix \<open>a++\<close> (the value stored).\<close>

definition js_or :: "jsval \<Rightarrow> jsval \<Rightarrow> jsval" where
  "js_or a b = (if ToBoolean a then a else b)"

definition js_plus :: "runtime \<Rightarrow> jsval \<Rightarrow> jsval \<Rightarrow> jsval" where
  "js_plus rt a b =
     (let pa = ToPrimitive rt a; pb = ToPrimitive rt b
      in if is_Str pa \<or> is_Str pb then Str (ToString rt pa @ ToString rt pb)
         else Num (number_add (ToNumber rt pa) (ToNumber rt pb)))"

definition js_div :: "runtime \<Rightarrow> jsval \<Rightarrow> jsval \<Rightarrow> number" where
  "js_div rt a b = number_div (ToNumber rt a) (ToNumber rt b)"

definition js_incr :: "runtime \<Rightarrow> jsval \<Rightarrow> jsval" where
  "js_incr rt a = Num (number_add (ToNumber rt a) (Fin 1))"

section \<open>Aging category and incentive status\<close>

text \<open>\<open>getAgingCategory\<close> of the inventory ingestor: \<open>daysOnLot\<close> is the Number that
  \<open>Math.floor\<close> returned.\<close>

definition getAgingCategory :: "number \<Rightarrow> string" where
  "getAgingCategory daysOnLot =
     (if number_le daysOnLot (Fin 30) then ''Fresh''
      else if number_le daysOnLot (Fin 60) then ''Aging''
      else if number_le daysOnLot (Fin 90) then ''Stale''
      else ''Critical'')"

text \<open>\<open>getIncentiveStatus\<close> of the incentive fetcher. The three arguments are \<open>Date\<close>
  objects; \<open><\<close> and \<open>>\<close> compare their time values.\<close>

definition getIncentiveStatus :: "number \<Rightarrow> number \<Rightarrow> number \<Rightarrow> string" where
  "getIncentiveStatus startDate endDate currentDate =
     (if number_lt currentDate startDate then ''Upcoming''
      else if number_gt currentDate endDate then ''Expired''
      else ''Active'')"

text \<open>The position of a status in the life of an incentive.\<close>

definition status_rank :: "string \<Rightarrow> nat" where
  "status_rank s = (if s = ''Upcoming'' then 0 else if s = ''Active'' then 1 else 2)"

section \<open>Common utilities (\<open>src/utils/common-utils.js\<close>)\<close>

text \<open>
  \<open>checkFileExists\<close>: the file system's answer \<open>exists\<close> is an input. The \<open>AppError\<close>
  constructor's defaults give the severity \<open>medium\<close> and the details \<open>{}\<close>.
\<close>

definition checkFileExists :: "bool \<Rightarrow> string \<Rightarrow> string \<Rightarrow> js_error + unit" where
  "checkFileExists exists filePath fileType =
     (if \<not> exists
      then Inl (AppError (fileType @ '' not found: '' @ filePath) ErrorTypes_FILE_SYSTEM
                  ErrorSeverity_MEDIUM (Obj Map.empty))
      else Inr ())"

text \<open>
  \<open>createResponse(success, data, error)\<close>: the object literal
  \<open>{success, timestamp, ...data}\<close> (a property of \<open>data\<close> overrides one of the same name),
  then the error branch. An absent \<open>error\<close> (\<open>null\<close>) is \<open>None\<close>; an error object is truthy.
\<close>

definition createResponse :: "runtime \<Rightarrow> bool \<Rightarrow> object \<Rightarrow> js_error option \<Rightarrow> object" where
  "createResponse rt success data error =
     (let response = [''success'' \<mapsto> Bool success, ''timestamp'' \<mapsto> Str (now_iso rt)] ++ data
      in case error of
           None \<Rightarrow> response
         | Some e \<Rightarrow>
             if \<not> success then
               (let response1 =
                      response(''error'' \<mapsto> js_or (Str (message e)) (Str ''Unknown error occurred''))
                in case e of
                     AppError m t sv d \<Rightarrow> response1(''errorType'' \<mapsto> Str t, ''errorDetails'' \<mapsto> d)
                   | _ \<Rightarrow> response1)
             else response)"

text \<open>\<open>handleError\<close> logs the error (an effect outside the model) and returns the failure
  response.\<close>

definition handleError :: "runtime \<Rightarrow> js_error \<Rightarrow> object" where
  "handleError rt error = createResponse rt False Map.empty (Some error)"

definition formatVehicleLine :: "runtime \<Rightarrow> jsval \<Rightarrow> jsval \<Rightarrow> jsval \<Rightarrow> string" where
  "formatVehicleLine rt year make' model =
     trim rt (ToString rt year @ '' '' @ ToString rt make' @ '' '' @ ToString rt model)"

text \<open>\<open>incrementCounter(obj, key, amount)\<close> mutates \<open>obj\<close> and returns the new counter: the
  model returns both.\<close>

definition incrementCounter :: "runtime \<Rightarrow> object \<Rightarrow> jsval \<Rightarrow> jsval \<Rightarrow> object \<times> jsval" where
  "incrementCounter rt obj key amount =
     (let k = ToPropertyKey rt key;
          v = js_plus rt (js_or (get obj k) (Num (Fin 0))) amount
      in (obj(k \<mapsto> v), v))"

definition getISODate :: "runtime \<Rightarrow> bool \<Rightarrow> string" where
  "getISODate rt dateOnly =
     (if dateOnly then takeWhile (\<lambda>c. c \<noteq> CHR ''T'') (now_iso rt) else now_iso rt)"

subsection \<open>The generic aggregator \<open>calculateSummary\<close>\<close>

text \<open>
  The configuration after destructuring (an absent \<open>groupByFields\<close> or \<open>sumFields\<close> is
  \<open>[]\<close>, an absent \<open>itemTransform\<close> the identity). A sum specification \<open>{field, key}\<close> is
  the pair \<open>(field, key)\<close>. The items and the transformed items are objects, and
  \<open>itemTransform\<close> is a function without effects. The summary is one object: the total
  key, the \<open>by_\<close> keys, the sum keys and the average keys are all properties of it.
\<close>

record config =
  totalKey :: string
  groupByFields :: "string list"
  sumFields :: "(string \<times> string) list"
  itemTransform :: "object \<Rightarrow> object"

text \<open>\<open>s.replace(pat, rep)\<close> with a string pattern: the first occurrence only.\<close>

fun replace_first :: "string \<Rightarrow> string \<Rightarrow> string \<Rightarrow> string" where
  "replace_first pat rep [] = (if pat = [] then rep else [])"
| "replace_first pat rep (c # cs) =
     (if take (length pat) (c # cs) = pat then rep @ drop (length pat) (c # cs)
      else c # replace_first pat rep cs)"

text \<open>
  The inner \<open>groupByFields.forEach\<close> for one transformed item. The module is strict code:
  \<open>incrementCounter\<close> on a summary entry that holds a primitive (a \<open>by_\<close> key that is
  also a sum key holds a number) raises a \<open>TypeError\<close>. No code path stores an array or
  a date in the summary.
\<close>

fun group_counts :: "runtime \<Rightarrow> object \<Rightarrow> string list \<Rightarrow> object \<Rightarrow> js_error + object" where
  "group_counts rt transformedItem [] summary = Inr summary"
| "group_counts rt transformedItem (field # rest) summary =
     (let v = get transformedItem field
      in if v \<noteq> Undefined \<and> v \<noteq> Null then
           (case summary (''by_'' @ field) of
              Some (Obj counts) \<Rightarrow>
                group_counts rt transformedItem rest
                  (summary(''by_'' @ field \<mapsto> Obj (fst (incrementCounter rt counts v (Num (Fin 1))))))
            | _ \<Rightarrow> Inl (TypeError ''Cannot create property on a primitive''))
         else group_counts rt transformedItem rest summary)"

text \<open>One step of the inner \<open>sumFields.forEach\<close>: \<open>Number(x) || 0\<close>, then \<open>+=\<close>.\<close>

definition number_or_zero :: "runtime \<Rightarrow> jsval \<Rightarrow> number" where
  "number_or_zero rt x = (let n = ToNumber rt x in if ToBoolean (Num n) then n else Fin 0)"

definition sum_step :: "runtime \<Rightarrow> object \<Rightarrow> string \<times> string \<Rightarrow> object \<Rightarrow> object" where
  "sum_step rt transformedItem fk summary =
     (let v = number_or_zero rt (get transformedItem (fst fk))
      in summary(snd fk \<mapsto> js_plus rt (get summary (snd fk)) (Num v)))"

text \<open>The outer \<open>items.forEach\<close>.\<close>

fun process_items :: "runtime \<Rightarrow> config \<Rightarrow> object list \<Rightarrow> object \<Rightarrow> js_error + object" where
  "process_items rt cfg [] summary = Inr summary"
| "process_items rt cfg (item # items) summary =
     (let transformedItem = itemTransform cfg item
      in case group_counts rt transformedItem (groupByFields cfg) summary of
           Inl e \<Rightarrow> Inl e
         | Inr summary1 \<Rightarrow>
             process_items rt cfg items
               (fold (sum_step rt transformedItem) (sumFields cfg) summary1))"

text \<open>One step of the averages loop, for \<open>n = items.length\<close>; \<open>average_key key\<close> is
  \<open>key.replace('total_', 'average_')\<close>.\<close>

definition average_key :: "string \<Rightarrow> string" where
  "average_key key = replace_first ''total_'' ''average_'' key"

definition average_step :: "runtime \<Rightarrow> nat \<Rightarrow> string \<times> string \<Rightarrow> object \<Rightarrow> object" where
  "average_step rt n fk summary =
     (let key = snd fk;
          avgKey = average_key key
      in if avgKey \<noteq> key
         then summary(avgKey \<mapsto> Num (Math_round (js_div rt (get summary key) (Num (Fin (of_nat n))))))
         else summary)"

definition init_summary :: "config \<Rightarrow> nat \<Rightarrow> object" where
  "init_summary cfg n =
     fold (\<lambda>fk s. s(snd fk \<mapsto> Num (Fin 0))) (sumFields cfg)
       (fold (\<lambda>field s. s(''by_'' @ field \<mapsto> Obj Map.empty)) (groupByFields cfg)
          [totalKey cfg \<mapsto> Num (Fin (of_nat n))])"

definition calculateSummary :: "runtime \<Rightarrow> object list \<Rightarrow> config \<Rightarrow> js_error + object" where
  "calculateSummary rt items cfg =
     (case process_items rt cfg items (init_summary cfg (length items)) of
        Inl e \<Rightarrow> Inl e
      | Inr summary \<Rightarrow>
          Inr (if length items > 0
               then fold (average_step rt (length items)) (sumFields cfg) summary
               else summary))"

section \<open>Inventory summary (\<open>calculateInventorySummary\<close> of the inventory ingestor)\<close>

text \<open>
  The summary is an object literal of fixed shape, so a record; \<open>by_make\<close>, \<open>by_aging\<close> and
  \<open>vehicle_lines\<close> are objects keyed by data. A vehicle is the object the ingestor built
  from a CSV row; \<open>days_on_lot\<close>, \<open>aging_category\<close> and \<open>vehicle_line\<close> are absent when no
  metrics were requested.
\<close>

record inventory_line =
  count :: jsval
  total_days :: jsval
  avg_days :: jsval
  total_value :: jsval

record inventory_summary =
  total_vehicles :: jsval
  by_make :: object
  by_aging :: object
  average_days_on_lot :: jsval
  total_msrp_value :: jsval
  vehicle_lines :: "string \<Rightarrow> inventory_line option"

text \<open>The body of \<open>inventory.forEach\<close>; the state is the summary and the local
  \<open>totalDays\<close>.\<close>

definition inventory_vehicle ::
  "runtime \<Rightarrow> object \<Rightarrow> inventory_summary \<times> jsval \<Rightarrow> inventory_summary \<times> jsval" where
  "inventory_vehicle rt vehicle st =
     (let summary = fst st;
          totalDays = snd st;
          mk = ToPropertyKey rt (get vehicle ''make'');
          summary = summary\<lparr>by_make := (by_make summary)
                      (mk \<mapsto> js_plus rt (js_or (get (by_make summary) mk) (Num (Fin 0))) (Num (Fin 1)))\<rparr>;
          ak = ToPropertyKey rt (get vehicle ''aging_category'');
          summary = summary\<lparr>by_aging := (by_aging summary)(ak \<mapsto> js_incr rt (get (by_aging summary) ak))\<rparr>;
          totalDays = js_plus rt totalDays (get vehicle ''days_on_lot'');
          summary = summary\<lparr>total_msrp_value :=
                      js_plus rt (total_msrp_value summary) (get vehicle ''msrp'')\<rparr>;
          line = ToPropertyKey rt (get vehicle ''vehicle_line'');
          lineData = (case vehicle_lines summary line of
                        None \<Rightarrow> \<lparr>count = Num (Fin 0), total_days = Num (Fin 0),
                                  avg_days = Num (Fin 0), total_value = Num (Fin 0)\<rparr>
                      | Some d \<Rightarrow> d);
          lineData = lineData\<lparr>count := js_incr rt (count lineData),
                        total_days := js_plus rt (total_days lineData) (get vehicle ''days_on_lot''),
                        total_value := js_plus rt (total_value lineData) (get vehicle ''msrp'')\<rparr>
      in (summary\<lparr>vehicle_lines := (vehicle_lines summary)(line \<mapsto> lineData)\<rparr>, totalDays))"

definition calculateInventorySummary :: "runtime \<Rightarrow> object list \<Rightarrow> inventory_summary" where
  "calculateInventorySummary rt inventory =
     (let summary0 = \<lparr>total_vehicles = Num (Fin (of_nat (length inventory))),
                       by_make = Map.empty,
                       by_aging = [''Fresh'' \<mapsto> Num (Fin 0), ''Aging'' \<mapsto> Num (Fin 0),
                                   ''Stale'' \<mapsto> Num (Fin 0), ''Critical'' \<mapsto> Num (Fin 0)],
                       average_days_on_lot = Num (Fin 0),
                       total_msrp_value = Num (Fin 0),
                       vehicle_lines = Map.empty\<rparr>;
          st = fold (inventory_vehicle rt) inventory (summary0, Num (Fin 0));
          summary = fst st;
          totalDays = snd st;
          summary = summary\<lparr>average_days_on_lot :=
                      Num (Math_round (js_div rt totalDays (Num (Fin (of_nat (length inventory))))))\<rparr>
      in summary\<lparr>vehicle_lines := (\<lambda>line.
           map_option (\<lambda>d. d\<lparr>avg_days := Num (Math_round (js_div rt (total_days d) (count d)))\<rparr>)
             (vehicle_lines summary line))\<rparr>)"

section \<open>Incentive fetcher (\<open>tools/incentive-fetcher.js\<close>)\<close>

subsection \<open>\<open>calculateIncentiveSummary\<close>\<close>

text \<open>\<open>types\<close> is a \<open>Set\<close>, converted to an array at the end: the list of its members in
  insertion order.\<close>

record incentive_line =
  count :: jsval
  total_value :: jsval
  max_value :: jsval
  types :: "jsval list"

record incentive_summary =
  total_incentives :: jsval
  by_make :: object
  by_type :: object
  by_status :: object
  total_value :: jsval
  average_value :: jsval
  vehicle_lines :: "string \<Rightarrow> incentive_line option"
  high_value_incentives :: "object list"
  expiring_soon :: "object list"

text \<open>The body of \<open>incentives.forEach\<close>.\<close>

definition incentive_step :: "runtime \<Rightarrow> object \<Rightarrow> incentive_summary \<Rightarrow> incentive_summary" where
  "incentive_step rt incentive summary =
     (let summary = summary\<lparr>by_make :=
                      fst (incrementCounter rt (by_make summary) (get incentive ''make'') (Num (Fin 1)))\<rparr>;
          summary = summary\<lparr>by_type :=
                      fst (incrementCounter rt (by_type summary) (get incentive ''incentive_type'')
                             (Num (Fin 1)))\<rparr>;
          sk = ToPropertyKey rt (get incentive ''status'');
          summary = summary\<lparr>by_status :=
                      (by_status summary)(sk \<mapsto> js_incr rt (get (by_status summary) sk))\<rparr>;
          summary = summary\<lparr>total_value := js_plus rt (total_value summary) (get incentive ''value'')\<rparr>;
          summary =
            (if number_gt (ToNumber rt (get incentive ''value'')) (Fin 2000)
             then summary\<lparr>high_value_incentives := high_value_incentives summary @
                    [[''vehicle_line'' \<mapsto> get incentive ''vehicle_line'',
                      ''value'' \<mapsto> get incentive ''value'',
                      ''type'' \<mapsto> get incentive ''incentive_type'']]\<rparr>
             else summary);
          summary =
            (if get incentive ''status'' = Str ''Active''
                \<and> number_le (ToNumber rt (get incentive ''days_remaining'')) (Fin 30)
             then summary\<lparr>expiring_soon := expiring_soon summary @
                    [[''vehicle_line'' \<mapsto> get incentive ''vehicle_line'',
                      ''days_remaining'' \<mapsto> get incentive ''days_remaining'',
                      ''value'' \<mapsto> get incentive ''value'']]\<rparr>
             else summary);
          line = ToPropertyKey rt (get incentive ''vehicle_line'');
          lineData = (case vehicle_lines summary line of
                        None \<Rightarrow> \<lparr>count = Num (Fin 0), incentive_line.total_value = Num (Fin 0),
                                  max_value = Num (Fin 0), types = []\<rparr>
                      | Some d \<Rightarrow> d);
          lineData = lineData\<lparr>count := js_incr rt (count lineData),
                        incentive_line.total_value :=
                          js_plus rt (incentive_line.total_value lineData) (get incentive ''value''),
                        max_value := Num (Math_max (ToNumber rt (max_value lineData))
                                                   (ToNumber rt (get incentive ''value''))),
                        types := (if get incentive ''incentive_type'' \<in> set (types lineData)
                                  then types lineData
                                  else types lineData @ [get incentive ''incentive_type''])\<rparr>
      in summary\<lparr>vehicle_lines := (vehicle_lines summary)(line \<mapsto> lineData)\<rparr>)"

definition calculateIncentiveSummary :: "runtime \<Rightarrow> object list \<Rightarrow> incentive_summary" where
  "calculateIncentiveSummary rt incentives =
     (let summary0 = \<lparr>total_incentives = Num (Fin (of_nat (length incentives))),
                       by_make = Map.empty,
                       by_type = Map.empty,
                       by_status = [''Active'' \<mapsto> Num (Fin 0), ''Upcoming'' \<mapsto> Num (Fin 0),
                                    ''Expired'' \<mapsto> Num (Fin 0)],
                       total_value = Num (Fin 0),
                       average_value = Num (Fin 0),
                       vehicle_lines = Map.empty,
                       high_value_incentives = [],
                       expiring_soon = []\<rparr>;
          summary = fold (incentive_step rt) incentives summary0
      in summary\<lparr>average_value :=
           Num (Math_round (js_div rt (total_value summary) (Num (Fin (of_nat (length incentives))))))\<rparr>)"

text \<open>The summary as the value stored in the response.\<close>

definition incentive_line_object :: "incentive_line \<Rightarrow> jsval" where
  "incentive_line_object d =
     Obj [''count'' \<mapsto> count d, ''total_value'' \<mapsto> incentive_line.total_value d,
          ''max_value'' \<mapsto> max_value d, ''types'' \<mapsto> Arr (types d)]"

definition incentive_summary_object :: "incentive_summary \<Rightarrow> jsval" where
  "incentive_summary_object s =
     Obj [''total_incentives'' \<mapsto> total_incentives s,
          ''by_make'' \<mapsto> Obj (by_make s),
          ''by_type'' \<mapsto> Obj (by_type s),
          ''by_status'' \<mapsto> Obj (by_status s),
          ''total_value'' \<mapsto> total_value s,
          ''average_value'' \<mapsto> average_value s,
          ''vehicle_lines'' \<mapsto> Obj (\<lambda>line. map_option incentive_line_object (vehicle_lines s line)),
          ''high_value_incentives'' \<mapsto> Arr (map Obj (high_value_incentives s)),
          ''expiring_soon'' \<mapsto> Arr (map Obj (expiring_soon s))]"

subsection \<open>\<open>fetch_incentive_data\<close>\<close>

text \<open>\<open>new Date(v)\<close>: the time value of the new date. A string is parsed by the runtime;
  any other value is converted to a number and clipped to the range of time values.\<close>

fun TimeClip :: "number \<Rightarrow> number" where
  "TimeClip (Fin a) =
     (if 8640000000000000 < \<bar>a\<bar> then NaN
      else Fin (of_int (if a < 0 then \<lceil>a\<rceil> else \<lfloor>a\<rfloor>)))"
| "TimeClip x = NaN"

definition Date_new :: "runtime \<Rightarrow> jsval \<Rightarrow> number" where
  "Date_new rt v =
     (case v of
        DateV t \<Rightarrow> t
      | _ \<Rightarrow> (case ToPrimitive rt v of
                Str s \<Rightarrow> DateParse rt s
              | p \<Rightarrow> TimeClip (ToNumber rt p)))"

definition generateIncentiveId :: "runtime \<Rightarrow> object \<Rightarrow> string" where
  "generateIncentiveId rt incentive =
     replace_whitespace_runs rt ''_''
       (toLowerCase rt
          (ToString rt (get incentive ''make'') @ ''_'' @ ToString rt (get incentive ''model'') @ ''_''
           @ ToString rt (js_or (get incentive ''type'') (Str ''incentive''))))"

text \<open>
  Reading a property of an element of the payload: \<open>undefined\<close> and \<open>null\<close> raise a
  \<open>TypeError\<close>; an object has its own properties; any other value has none of the
  properties read here.
\<close>

fun properties :: "jsval \<Rightarrow> js_error + object" where
  "properties Undefined = Inl (TypeError ''Cannot read properties of undefined'')"
| "properties Null = Inl (TypeError ''Cannot read properties of null'')"
| "properties (Obj m) = Inr m"
| "properties v = Inr Map.empty"

text \<open>The callback of \<open>incentives.map\<close>, for the current date \<open>currentDate\<close>.\<close>

definition process_incentive :: "runtime \<Rightarrow> number \<Rightarrow> jsval \<Rightarrow> js_error + object" where
  "process_incentive rt currentDate raw =
     (case properties raw of
        Inl e \<Rightarrow> Inl e
      | Inr incentive \<Rightarrow>
          (let start_date = Date_new rt (get incentive ''start_date'');
               end_date = Date_new rt (get incentive ''end_date'')
           in Inr
             [''id'' \<mapsto> js_or (get incentive ''id'') (Str (generateIncentiveId rt incentive)),
              ''program_name'' \<mapsto> js_or (get incentive ''program_name'') (get incentive ''name''),
              ''make'' \<mapsto> get incentive ''make'',
              ''model'' \<mapsto> get incentive ''model'',
              ''year'' \<mapsto> get incentive ''year'',
              ''trim'' \<mapsto> get incentive ''trim'',
              ''incentive_type'' \<mapsto> js_or (get incentive ''type'') (get incentive ''incentive_type''),
              ''value'' \<mapsto> Num (parseFloat_string rt (ToString rt
                  (js_or (js_or (get incentive ''value'') (get incentive ''amount'')) (Num (Fin 0))))),
              ''description'' \<mapsto> get incentive ''description'',
              ''start_date'' \<mapsto> DateV start_date,
              ''end_date'' \<mapsto> DateV end_date,
              ''eligibility'' \<mapsto> js_or (get incentive ''eligibility'') (Arr []),
              ''stackable'' \<mapsto> js_or (get incentive ''stackable'') (Bool False),
              ''customer_type'' \<mapsto> js_or (get incentive ''customer_type'') (Str ''All''),
              ''region'' \<mapsto> js_or (get incentive ''region'') (Str ''National''),
              ''dealer_cash'' \<mapsto> js_or (get incentive ''dealer_cash'') (Bool False),
              ''customer_cash'' \<mapsto> js_or (get incentive ''customer_cash'') (Bool False),
              ''financing_rate'' \<mapsto> js_or (get incentive ''financing_rate'') Null,
              ''lease_rate'' \<mapsto> js_or (get incentive ''lease_rate'') Null,
              ''status'' \<mapsto> Str (getIncentiveStatus start_date end_date currentDate),
              ''days_remaining'' \<mapsto>
                 Num (Math_ceil (number_div (number_sub end_date currentDate) (Fin 86400000))),
              ''vehicle_line'' \<mapsto> Str (formatVehicleLine rt (get incentive ''year'')
                 (get incentive ''make'') (get incentive ''model''))]))"

fun process_incentives :: "runtime \<Rightarrow> number \<Rightarrow> jsval list \<Rightarrow> js_error + object list" where
  "process_incentives rt currentDate [] = Inr []"
| "process_incentives rt currentDate (raw # raws) =
     (case process_incentive rt currentDate raw of
        Inl e \<Rightarrow> Inl e
      | Inr processed \<Rightarrow>
          (case process_incentives rt currentDate raws of
             Inl e \<Rightarrow> Inl e
           | Inr rest \<Rightarrow> Inr (processed # rest)))"

text \<open>
  The test on the shape of the parsed file: an array, or an object whose \<open>incentives\<close>
  property is an array. \<open>rawData.incentives\<close> on \<open>null\<close> raises a \<open>TypeError\<close>.
\<close>

fun select_incentives :: "jsval \<Rightarrow> js_error + jsval list" where
  "select_incentives (Arr xs) = Inr xs"
| "select_incentives Undefined = Inl (TypeError ''Cannot read properties of undefined'')"
| "select_incentives Null = Inl (TypeError ''Cannot read properties of null'')"
| "select_incentives (Obj m) =
     (case get m ''incentives'' of
        Arr xs \<Rightarrow> Inr xs
      | _ \<Rightarrow> Inl (Error
          ''Invalid incentive data format. Expected array or object with incentives property.''))"
| "select_incentives v =
     Inl (Error ''Invalid incentive data format. Expected array or object with incentives property.'')"

text \<open>
  The body of the \<open>try\<close> block. The inputs from the file system are \<open>file_exists\<close> (the
  answer of \<open>fs.pathExists\<close>) and \<open>file\<close> (what \<open>fs.readJson\<close> returns: the parsed JSON, or
  the exception it raises). Logging is an effect outside the model.
\<close>

definition fetch_incentive_try ::
  "runtime \<Rightarrow> bool \<Rightarrow> js_error + jsval \<Rightarrow> string \<Rightarrow> bool \<Rightarrow> bool \<Rightarrow> js_error + object" where
  "fetch_incentive_try rt file_exists file source_path filter_active_only include_expired =
     (case checkFileExists file_exists source_path ''Incentive file'' of
        Inl e \<Rightarrow> Inl e
      | Inr u \<Rightarrow>
     (case file of
        Inl e \<Rightarrow> Inl e
      | Inr rawData \<Rightarrow>
     (case select_incentives rawData of
        Inl e \<Rightarrow> Inl e
      | Inr incentives \<Rightarrow>
     (case process_incentives rt (now rt) incentives of
        Inl e \<Rightarrow> Inl e
      | Inr processedIncentives \<Rightarrow>
          (let filteredIncentives =
                 (if filter_active_only
                  then filter (\<lambda>inc. get inc ''status'' = Str ''Active'') processedIncentives
                  else processedIncentives);
               filteredIncentives =
                 (if \<not> include_expired
                  then filter (\<lambda>inc. get inc ''status'' \<noteq> Str ''Expired'') filteredIncentives
                  else filteredIncentives);
               summary = calculateIncentiveSummary rt filteredIncentives
           in Inr (createResponse rt True
                [''data'' \<mapsto> Arr (map Obj filteredIncentives),
                 ''summary'' \<mapsto> incentive_summary_object summary,
                 ''total_incentives'' \<mapsto> Num (Fin (of_nat (length filteredIncentives))),
                 ''fetch_date'' \<mapsto> Str (getISODate rt False)]
                None))))))"

definition fetch_incentive_data ::
  "runtime \<Rightarrow> bool \<Rightarrow> js_error + jsval \<Rightarrow> string \<Rightarrow> bool \<Rightarrow> bool \<Rightarrow> object" where
  "fetch_incentive_data rt file_exists file source_path filter_active_only include_expired =
     (case fetch_incentive_try rt file_exists file source_path filter_active_only include_expired of
        Inl e \<Rightarrow> handleError rt e
      | Inr response \<Rightarrow> response)"

section \<open>Notions used in the statements\<close>

text \<open>The keys a configuration writes: the \<open>by_\<close> keys of its group fields, the keys of its
  sum specifications, and the companion keys the averages loop writes.\<close>

definition group_keys :: "config \<Rightarrow> string set" where
  "group_keys cfg = (\<lambda>field. ''by_'' @ field) ` set (groupByFields cfg)"

definition sum_keys :: "config \<Rightarrow> string set" where
  "sum_keys cfg = snd ` set (sumFields cfg)"

definition average_keys :: "config \<Rightarrow> string set" where
  "average_keys cfg = {average_key key | key. key \<in> sum_keys cfg \<and> average_key key \<noteq> key}"

text \<open>A value that is neither \<open>undefined\<close> nor \<open>null\<close>.\<close>

definition is_value :: "jsval \<Rightarrow> bool" where
  "is_value v = (v \<noteq> Undefined \<and> v \<noteq> Null)"

text \<open>What the items loop does to one group map and to one sum, written as folds over the
  items: \<open>group_step\<close> counts the value of \<open>field\<close> once for every occurrence of \<open>field\<close>
  in \<open>groupByFields\<close>, \<open>item_sum\<close> adds the numbers of every sum specification that
  writes \<open>key\<close>.\<close>

definition counter_incr :: "runtime \<Rightarrow> jsval \<Rightarrow> object \<Rightarrow> object" where
  "counter_incr rt v m = fst (incrementCounter rt m v (Num (Fin 1)))"

definition group_step :: "runtime \<Rightarrow> config \<Rightarrow> string \<Rightarrow> object \<Rightarrow> object \<Rightarrow> object" where
  "group_step rt cfg field item m =
     (let v = get (itemTransform cfg item) field
      in if is_value v then (counter_incr rt v ^^ count_list (groupByFields cfg) field) m else m)"






text \<open>The shape of every summary the items loop reaches: a sum key holds a number, and a
  \<open>by_\<close> key that is not a sum key holds a group map. The loop raises exactly when an
  item has a value for a group field whose \<open>by_\<close> key is a sum key.\<close>

definition slots_ok :: "config \<Rightarrow> object \<Rightarrow> bool" where
  "slots_ok cfg s =
     ((\<forall>k \<in> sum_keys cfg. \<exists>n. s k = Some (Num n)) \<and>
      (\<forall>f \<in> set (groupByFields cfg).
         ''by_'' @ f \<notin> sum_keys cfg \<longrightarrow> (\<exists>m. s (''by_'' @ f) = Some (Obj m))))"

definition no_blocked_value :: "config \<Rightarrow> object list \<Rightarrow> bool" where
  "no_blocked_value cfg items =
     (\<forall>item \<in> set items. \<forall>f \<in> set (groupByFields cfg).
        is_value (get (itemTransform cfg item) f) \<longrightarrow> ''by_'' @ f \<notin> sum_keys cfg)"

text \<open>A parsed incentive file of an accepted shape: an array, or an object whose
  \<open>incentives\<close> property is an array.\<close>

fun accepted_payload :: "jsval \<Rightarrow> bool" where
  "accepted_payload (Arr xs) = True"
| "accepted_payload (Obj m) = (case get m ''incentives'' of Arr xs \<Rightarrow> True | _ \<Rightarrow> False)"
| "accepted_payload v = False"

text \<open>The configurations and records of the examples.\<close>

definition identity_transform :: "object \<Rightarrow> object" where
  "identity_transform item = item"

definition vehicles_config :: config where
  "vehicles_config = \<lparr>totalKey = ''total_vehicles'', groupByFields = [''make''],
     sumFields = [(''price'', ''total_price'')], itemTransform = identity_transform\<rparr>"

definition honda :: object where
  "honda = [''make'' \<mapsto> Str ''Honda'', ''price'' \<mapsto> Num (Fin 25000)]"

definition toyota :: object where
  "toyota = [''make'' \<mapsto> Str ''Toyota'', ''price'' \<mapsto> Num (Fin 28000)]"


text \<open>Configurations whose keys collide: a \<open>by_\<close> key that is also a sum key, two sum keys
  with one companion key, and a total key that is also a sum key.\<close>

definition group_key_is_sum_key :: config where
  "group_key_is_sum_key = \<lparr>totalKey = ''total'', groupByFields = [''x''],
     sumFields = [(''v'', ''by_x'')], itemTransform = identity_transform\<rparr>"



section \<open>Aging category and incentive status: properties\<close>

lemma number_le_Fin [simp]: "number_le (Fin a) (Fin b) = (a \<le> b)"
  by (auto simp: number_le_def)

lemma number_le_lt_trans: "number_le a b \<Longrightarrow> number_lt b c \<Longrightarrow> number_lt a c"
  by (cases a; cases b; cases c; simp add: number_le_def)

lemma number_lt_le_trans: "number_lt a b \<Longrightarrow> number_le b c \<Longrightarrow> number_lt a c"
  by (cases a; cases b; cases c; simp add: number_le_def)

text \<open>
  C4. For every integer number of days on the lot \<open>d\<close>, the aging category is \<open>Fresh\<close>
  exactly when \<open>d \<le> 30\<close>, \<open>Aging\<close> exactly when \<open>31 \<le> d \<le> 60\<close>, \<open>Stale\<close> exactly when
  \<open>61 \<le> d \<le> 90\<close>, and \<open>Critical\<close> exactly when \<open>d > 90\<close>.
\<close>

theorem aging_category_buckets:
  fixes d :: int
  shows "(getAgingCategory (Fin (of_int d)) = ''Fresh'') = (d \<le> 30)
       \<and> (getAgingCategory (Fin (of_int d)) = ''Aging'') = (31 \<le> d \<and> d \<le> 60)
       \<and> (getAgingCategory (Fin (of_int d)) = ''Stale'') = (61 \<le> d \<and> d \<le> 90)
       \<and> (getAgingCategory (Fin (of_int d)) = ''Critical'') = (90 < d)"
proof -
  have le: "((of_int d :: rat) \<le> of_int k) = (d \<le> k)" for k :: int
    by simp
  have "((of_int d :: rat) \<le> 30) = (d \<le> 30)"
    using le[of 30] by simp
  moreover have "((of_int d :: rat) \<le> 60) = (d \<le> 60)"
    using le[of 60] by simp
  moreover have "((of_int d :: rat) \<le> 90) = (d \<le> 90)"
    using le[of 90] by simp
  ultimately show ?thesis
    by (auto simp: getAgingCategory_def)
qed

text \<open>The boundary values 30, 31, 60, 61, 90 and 91, and a date received in the future.\<close>

lemma aging_category_boundaries:
  "getAgingCategory (Fin 30) = ''Fresh'' \<and> getAgingCategory (Fin 31) = ''Aging''
 \<and> getAgingCategory (Fin 60) = ''Aging'' \<and> getAgingCategory (Fin 61) = ''Stale''
 \<and> getAgingCategory (Fin 90) = ''Stale'' \<and> getAgingCategory (Fin 91) = ''Critical''
 \<and> getAgingCategory (Fin (- 5)) = ''Fresh'' \<and> getAgingCategory NaN = ''Critical''"
  by (simp add: getAgingCategory_def number_le_def)

text \<open>
  C5, as the code has it. The two tests run in order: the status is \<open>Upcoming\<close> exactly
  when \<open>now < start\<close>, \<open>Expired\<close> exactly when \<open>now > end\<close> and not \<open>now < start\<close>, and
  \<open>Active\<close> otherwise. When \<open>start \<le> end\<close> the second test stands alone (\<open>Expired\<close>
  exactly when \<open>now > end\<close>) and \<open>now = start\<close> or \<open>now = end\<close> gives \<open>Active\<close>.
\<close>

theorem incentive_status_first_match:
  "(getIncentiveStatus s e n = ''Upcoming'') = number_lt n s
 \<and> (getIncentiveStatus s e n = ''Expired'') = (\<not> number_lt n s \<and> number_gt n e)
 \<and> (getIncentiveStatus s e n = ''Active'') = (\<not> number_lt n s \<and> \<not> number_gt n e)
 \<and> (number_le s e \<longrightarrow>
       (getIncentiveStatus s e n = ''Expired'') = number_gt n e
     \<and> (n = s \<or> n = e \<longrightarrow> getIncentiveStatus s e n = ''Active''))"
  by (cases s; cases e; cases n;
      simp add: getIncentiveStatus_def number_gt_def number_le_def; linarith?)

theorem incentive_status_first_match_witness:
  "number_le (Fin 10) (Fin 20)
 \<and> getIncentiveStatus (Fin 10) (Fin 20) (Fin 10) = ''Active''
 \<and> getIncentiveStatus (Fin 10) (Fin 20) (Fin 20) = ''Active''
 \<and> getIncentiveStatus (Fin 10) (Fin 20) (Fin 9) = ''Upcoming''
 \<and> getIncentiveStatus (Fin 10) (Fin 20) (Fin 21) = ''Expired''"
  using incentive_status_first_match[of "Fin 10" "Fin 20" "Fin 10"]
    incentive_status_first_match[of "Fin 10" "Fin 20" "Fin 20"]
    incentive_status_first_match[of "Fin 10" "Fin 20" "Fin 9"]
    incentive_status_first_match[of "Fin 10" "Fin 20" "Fin 21"]
  by (simp add: number_gt_def)

text \<open>
  C5 as stated fails where the end date precedes the start date: at \<open>start = 10\<close>,
  \<open>end = 5\<close>, \<open>now = 7\<close> the current date is after the end date and the status is
  \<open>Upcoming\<close>, not \<open>Expired\<close>; at \<open>now = end = 5\<close> the status is \<open>Upcoming\<close>, not \<open>Active\<close>.
\<close>

theorem incentive_status_counterexample:
  "number_gt (Fin 7) (Fin 5) \<and> getIncentiveStatus (Fin 10) (Fin 5) (Fin 7) = ''Upcoming''
 \<and> getIncentiveStatus (Fin 10) (Fin 5) (Fin 7) \<noteq> ''Expired''
 \<and> getIncentiveStatus (Fin 10) (Fin 5) (Fin 5) \<noteq> ''Active''"
  by (simp add: getIncentiveStatus_def number_gt_def)

text \<open>
  C8. For fixed start and end dates the status never moves backward as the current date
  increases: if \<open>now1 \<le> now2\<close>, the status at \<open>now1\<close> comes no later in the order
  \<open>Upcoming\<close>, \<open>Active\<close>, \<open>Expired\<close> than the status at \<open>now2\<close>.
\<close>

theorem incentive_status_monotonic:
  assumes "number_le n1 n2"
  shows "status_rank (getIncentiveStatus s e n1) \<le> status_rank (getIncentiveStatus s e n2)"
  using assms number_le_lt_trans[of n1 n2 s] number_lt_le_trans[of e n1 n2]
  by (auto simp: getIncentiveStatus_def number_gt_def status_rank_def)

theorem incentive_status_monotonic_witness:
  "number_le (Fin 9) (Fin 15) \<and> number_le (Fin 15) (Fin 21)
 \<and> status_rank (getIncentiveStatus (Fin 10) (Fin 20) (Fin 9))
      \<le> status_rank (getIncentiveStatus (Fin 10) (Fin 20) (Fin 15))
 \<and> status_rank (getIncentiveStatus (Fin 10) (Fin 20) (Fin 15))
      \<le> status_rank (getIncentiveStatus (Fin 10) (Fin 20) (Fin 21))
 \<and> getIncentiveStatus (Fin 10) (Fin 20) (Fin 9) = ''Upcoming''
 \<and> getIncentiveStatus (Fin 10) (Fin 20) (Fin 15) = ''Active''
 \<and> getIncentiveStatus (Fin 10) (Fin 20) (Fin 21) = ''Expired''"
proof -
  have a: "number_le (Fin 9) (Fin 15)" and b: "number_le (Fin 15) (Fin 21)"
    by simp_all
  show ?thesis
    using a b incentive_status_monotonic[OF a, of "Fin 10" "Fin 20"]
      incentive_status_monotonic[OF b, of "Fin 10" "Fin 20"]
    by (simp add: getIncentiveStatus_def number_gt_def)
qed

section \<open>The generic aggregator: the summary after each phase\<close>

text \<open>
  The lemmas follow the function: the initial summary, the group phase and the sum phase
  for one item, the loop over the items, and the averages.
\<close>

lemma fold_upd_const:
  "fold (\<lambda>x s. s(g x \<mapsto> c)) xs s k = (if k \<in> g ` set xs then Some c else s k)"
  by (induction xs arbitrary: s) auto

lemma init_summary_apply:
  "init_summary cfg n k =
     (if k \<in> sum_keys cfg then Some (Num (Fin 0))
      else if k \<in> group_keys cfg then Some (Obj Map.empty)
      else if k = totalKey cfg then Some (Num (Fin (of_nat n)))
      else None)"
  unfolding init_summary_def sum_keys_def group_keys_def
  by (simp add: fold_upd_const)

lemma replace_first_total_prefix:
  "replace_first ''total_'' ''average_'' (''total_'' @ r) = ''average_'' @ r"
  by simp



lemma group_counts_keeps_non_objects:
  "group_counts rt ti fs s = Inr s' \<Longrightarrow> (\<And>m. s k \<noteq> Some (Obj m)) \<Longrightarrow> s' k = s k"
proof (induction fs arbitrary: s)
  case Nil
  then show ?case by simp
next
  case (Cons f fs)
  show ?case
  proof (cases "get ti f \<noteq> Undefined \<and> get ti f \<noteq> Null")
    case False
    with Cons show ?thesis by (auto simp: Let_def)
  next
    case True
    with Cons.prems(1) obtain m where m: "s (''by_'' @ f) = Some (Obj m)"
      by (auto simp: Let_def split: option.splits jsval.splits)
    with True Cons.prems have run:
      "group_counts rt ti fs (s(''by_'' @ f \<mapsto> Obj (counter_incr rt (get ti f) m))) = Inr s'"
      by (simp add: Let_def counter_incr_def)
    from m Cons.prems(2) have ne: "k \<noteq> ''by_'' @ f" by auto
    have "s' k = (s(''by_'' @ f \<mapsto> Obj (counter_incr rt (get ti f) m))) k"
      by (rule Cons.IH[OF run]) (use ne Cons.prems(2) in auto)
    with ne show ?thesis by simp
  qed
qed

lemma group_counts_slot:
  "group_counts rt ti fs s = Inr s' \<Longrightarrow> s (''by_'' @ f) = Some (Obj m) \<Longrightarrow>
   s' (''by_'' @ f) =
     Some (Obj (if is_value (get ti f) then (counter_incr rt (get ti f) ^^ count_list fs f) m else m))"
proof (induction fs arbitrary: s m)
  case Nil
  then show ?case by simp
next
  case (Cons g fs)
  show ?case
  proof (cases "get ti g \<noteq> Undefined \<and> get ti g \<noteq> Null")
    case False
    with Cons.prems have run: "group_counts rt ti fs s = Inr s'" by (auto simp: Let_def)
    from False have "g = f \<Longrightarrow> \<not> is_value (get ti f)" by (auto simp: is_value_def)
    with Cons.IH[OF run Cons.prems(2)] show ?thesis by auto
  next
    case True
    with Cons.prems(1) obtain mg where mg: "s (''by_'' @ g) = Some (Obj mg)"
      by (auto simp: Let_def split: option.splits jsval.splits)
    with True Cons.prems have run:
      "group_counts rt ti fs (s(''by_'' @ g \<mapsto> Obj (counter_incr rt (get ti g) mg))) = Inr s'"
      by (simp add: Let_def counter_incr_def)
    show ?thesis
    proof (cases "g = f")
      case same: True
      with mg Cons.prems(2) have "mg = m" by simp
      with same True have
        "s' (''by_'' @ f) = Some (Obj (if is_value (get ti f)
            then (counter_incr rt (get ti f) ^^ count_list fs f) (counter_incr rt (get ti f) m)
            else counter_incr rt (get ti f) m))"
        using Cons.IH[OF run, of "counter_incr rt (get ti f) m"] by simp
      with same True show ?thesis by (simp add: is_value_def funpow_swap1)
    next
      case False
      then have "(s(''by_'' @ g \<mapsto> Obj (counter_incr rt (get ti g) mg))) (''by_'' @ f) = Some (Obj m)"
        using Cons.prems(2) by simp
      from Cons.IH[OF run this] False show ?thesis by simp
    qed
  qed
qed

lemma group_counts_returns_iff:
  "(\<exists>s'. group_counts rt ti fs s = Inr s') =
   (\<forall>f \<in> set fs. is_value (get ti f) \<longrightarrow> (\<exists>m. s (''by_'' @ f) = Some (Obj m)))"
proof (induction fs arbitrary: s)
  case Nil
  then show ?case by simp
next
  case (Cons g fs)
  show ?case
  proof (cases "get ti g \<noteq> Undefined \<and> get ti g \<noteq> Null")
    case False
    then have "\<not> is_value (get ti g)" by (auto simp: is_value_def)
    with False Cons.IH[of s] show ?thesis by (auto simp: Let_def)
  next
    case True
    then have v: "is_value (get ti g)" by (simp add: is_value_def)
    show ?thesis
    proof (cases "\<exists>mg. s (''by_'' @ g) = Some (Obj mg)")
      case False
      with True have "\<And>s'. group_counts rt ti (g # fs) s \<noteq> Inr s'"
        by (auto simp: Let_def split: option.splits jsval.splits)
      with False v show ?thesis by auto
    next
      case True
      then obtain mg where mg: "s (''by_'' @ g) = Some (Obj mg)" by blast
      let ?s1 = "s(''by_'' @ g \<mapsto> Obj (counter_incr rt (get ti g) mg))"
      have step: "group_counts rt ti (g # fs) s = group_counts rt ti fs ?s1"
        using \<open>get ti g \<noteq> Undefined \<and> get ti g \<noteq> Null\<close> mg by (simp add: Let_def counter_incr_def)
      have slots: "(\<exists>m. ?s1 (''by_'' @ f) = Some (Obj m)) = (\<exists>m. s (''by_'' @ f) = Some (Obj m))" for f
        using mg by (cases "f = g") auto
      show ?thesis
        unfolding step Cons.IH[of ?s1] using slots mg by auto
    qed
  qed
qed

lemma js_plus_Num [simp]: "js_plus rt (Num a) (Num b) = Num (number_add a b)"
  by (simp add: js_plus_def)

lemma get_Some [simp]: "m k = Some v \<Longrightarrow> get m k = v"
  by (simp add: get_def)

lemma fold_sum_frame:
  "k \<notin> snd ` set sfs \<Longrightarrow> fold (sum_step rt ti) sfs s k = s k"
  by (induction sfs arbitrary: s) (auto simp: sum_step_def Let_def)

lemma fold_sum_num:
  "s k = Some (Num n) \<Longrightarrow> \<exists>n'. fold (sum_step rt ti) sfs s k = Some (Num n')"
proof (induction sfs arbitrary: s n)
  case Nil
  then show ?case by simp
next
  case (Cons fk sfs)
  have "\<exists>n1. sum_step rt ti fk s k = Some (Num n1)"
    using Cons.prems by (cases "snd fk = k") (auto simp: sum_step_def Let_def)
  then obtain n1 where "sum_step rt ti fk s k = Some (Num n1)" by blast
  with Cons.IH[of "sum_step rt ti fk s" n1] show ?case by simp
qed

lemma slots_ok_init: "slots_ok cfg (init_summary cfg n)"
  by (auto simp: slots_ok_def init_summary_apply group_keys_def)

lemma slots_ok_step:
  assumes ok: "slots_ok cfg s"
    and run: "group_counts rt ti (groupByFields cfg) s = Inr s1"
  shows "slots_ok cfg (fold (sum_step rt ti) (sumFields cfg) s1)"
proof -
  have nums: "\<exists>n. fold (sum_step rt ti) (sumFields cfg) s1 k = Some (Num n)" if "k \<in> sum_keys cfg" for k
  proof -
    from ok that obtain n where n: "s k = Some (Num n)" by (auto simp: slots_ok_def)
    then have "s1 k = s k" using group_counts_keeps_non_objects[OF run, of k] by simp
    with n fold_sum_num[of s1 k n] show ?thesis by simp
  qed
  have objs: "\<exists>m. fold (sum_step rt ti) (sumFields cfg) s1 (''by_'' @ f) = Some (Obj m)"
    if "f \<in> set (groupByFields cfg)" "''by_'' @ f \<notin> sum_keys cfg" for f
  proof -
    from ok that obtain m where "s (''by_'' @ f) = Some (Obj m)" by (auto simp: slots_ok_def)
    from group_counts_slot[OF run this] obtain m1 where "s1 (''by_'' @ f) = Some (Obj m1)" by blast
    moreover have "fold (sum_step rt ti) (sumFields cfg) s1 (''by_'' @ f) = s1 (''by_'' @ f)"
      using that(2) by (intro fold_sum_frame) (simp add: sum_keys_def)
    ultimately show ?thesis by simp
  qed
  from nums objs show ?thesis by (auto simp: slots_ok_def)
qed

lemma group_counts_returns_ok:
  assumes ok: "slots_ok cfg s"
  shows "(\<exists>s1. group_counts rt ti (groupByFields cfg) s = Inr s1) =
         (\<forall>f \<in> set (groupByFields cfg). is_value (get ti f) \<longrightarrow> ''by_'' @ f \<notin> sum_keys cfg)"
proof -
  have "(\<exists>m. s (''by_'' @ f) = Some (Obj m)) = (''by_'' @ f \<notin> sum_keys cfg)"
    if "f \<in> set (groupByFields cfg)" for f
    using ok that by (auto simp: slots_ok_def)
  then show ?thesis unfolding group_counts_returns_iff by auto
qed

lemma process_items_returns_iff:
  "slots_ok cfg s \<Longrightarrow>
   (\<exists>s'. process_items rt cfg items s = Inr s') = no_blocked_value cfg items"
proof (induction items arbitrary: s)
  case Nil
  then show ?case by (simp add: no_blocked_value_def)
next
  case (Cons item items)
  let ?ti = "itemTransform cfg item"
  show ?case
  proof (cases "group_counts rt ?ti (groupByFields cfg) s")
    case (Inl e)
    then have "\<not> (\<exists>s1. group_counts rt ?ti (groupByFields cfg) s = Inr s1)" by simp
    with group_counts_returns_ok[OF Cons.prems, of rt ?ti] Inl show ?thesis
      by (auto simp: no_blocked_value_def Let_def)
  next
    case (Inr s1)
    then have "\<exists>s1. group_counts rt ?ti (groupByFields cfg) s = Inr s1" by blast
    with group_counts_returns_ok[OF Cons.prems, of rt ?ti]
    have here: "\<forall>f \<in> set (groupByFields cfg). is_value (get ?ti f) \<longrightarrow> ''by_'' @ f \<notin> sum_keys cfg"
      by simp
    from Cons.IH[OF slots_ok_step[OF Cons.prems Inr]] Inr here show ?thesis
      by (auto simp: no_blocked_value_def Let_def)
  qed
qed

lemma process_items_slots_ok:
  "process_items rt cfg items s = Inr s' \<Longrightarrow> slots_ok cfg s \<Longrightarrow> slots_ok cfg s'"
proof (induction items arbitrary: s)
  case Nil
  then show ?case by simp
next
  case (Cons item items)
  from Cons.prems(1) obtain s1 where
    s1: "group_counts rt (itemTransform cfg item) (groupByFields cfg) s = Inr s1"
    and rest: "process_items rt cfg items (fold (sum_step rt (itemTransform cfg item)) (sumFields cfg) s1) = Inr s'"
    by (auto simp: Let_def split: sum.splits)
  from Cons.IH[OF rest slots_ok_step[OF Cons.prems(2) s1]] show ?case .
qed


lemma process_items_slot:
  "process_items rt cfg items s = Inr s' \<Longrightarrow> ''by_'' @ f \<notin> sum_keys cfg \<Longrightarrow>
   s (''by_'' @ f) = Some (Obj m) \<Longrightarrow>
   s' (''by_'' @ f) = Some (Obj (fold (group_step rt cfg f) items m))"
proof (induction items arbitrary: s m)
  case Nil
  then show ?case by simp
next
  case (Cons item items)
  let ?ti = "itemTransform cfg item"
  from Cons.prems(1) obtain s1 where
    s1: "group_counts rt ?ti (groupByFields cfg) s = Inr s1"
    and rest: "process_items rt cfg items (fold (sum_step rt ?ti) (sumFields cfg) s1) = Inr s'"
    by (auto simp: Let_def split: sum.splits)
  have "fold (sum_step rt ?ti) (sumFields cfg) s1 (''by_'' @ f) = s1 (''by_'' @ f)"
    using Cons.prems(2) by (intro fold_sum_frame) (simp add: sum_keys_def)
  also have "\<dots> = Some (Obj (group_step rt cfg f item m))"
    using group_counts_slot[OF s1 Cons.prems(3)] by (simp add: group_step_def Let_def)
  finally have "fold (sum_step rt ?ti) (sumFields cfg) s1 (''by_'' @ f) = Some (Obj (group_step rt cfg f item m))" .
  from Cons.IH[OF rest Cons.prems(2) this] show ?case by simp
qed

lemma average_step_alt:
  "average_step rt n fk s =
     (if average_key (snd fk) \<noteq> snd fk
      then s(average_key (snd fk) \<mapsto> Num (Math_round (js_div rt (get s (snd fk)) (Num (Fin (of_nat n))))))
      else s)"
  by (simp add: average_step_def Let_def)

lemma fold_average_frame:
  "k \<notin> {average_key key | key. key \<in> snd ` set sfs \<and> average_key key \<noteq> key} \<Longrightarrow>
   fold (average_step rt n) sfs s k = s k"
proof (induction sfs arbitrary: s)
  case Nil
  then show ?case by simp
next
  case (Cons fk sfs)
  have "fold (average_step rt n) sfs (average_step rt n fk s) k = average_step rt n fk s k"
    using Cons.prems by (intro Cons.IH) auto
  also have "\<dots> = s k"
    using Cons.prems by (auto simp: average_step_alt)
  finally show ?case by simp
qed

lemma fold_average_num:
  "k \<in> {average_key key | key. key \<in> snd ` set sfs \<and> average_key key \<noteq> key} \<or> (\<exists>x. s k = Some (Num x)) \<Longrightarrow>
   \<exists>x. fold (average_step rt n) sfs s k = Some (Num x)"
proof (induction sfs arbitrary: s)
  case Nil
  then show ?case by simp
next
  case (Cons fk sfs)
  show ?case
  proof (cases "k = average_key (snd fk) \<and> average_key (snd fk) \<noteq> snd fk")
    case True
    then have "\<exists>x. average_step rt n fk s k = Some (Num x)" by (simp add: average_step_alt)
    then show ?thesis using Cons.IH[of "average_step rt n fk s"] by simp
  next
    case False
    then have same: "average_step rt n fk s k = s k" by (auto simp: average_step_alt)
    from Cons.prems False
    have "k \<in> {average_key key | key. key \<in> snd ` set sfs \<and> average_key key \<noteq> key} \<or> (\<exists>x. s k = Some (Num x))"
      by auto
    with same show ?thesis using Cons.IH[of "average_step rt n fk s"] by simp
  qed
qed


lemma counter_incr_commute:
  "counter_incr rt v (counter_incr rt w m) = counter_incr rt w (counter_incr rt v m)"
  by (cases "ToPropertyKey rt v = ToPropertyKey rt w")
     (auto simp: counter_incr_def incrementCounter_def Let_def get_def fun_upd_twist)

lemma funpow_commute_1:
  assumes "\<And>m. f (g m) = g (f m)"
  shows "f ((g ^^ b) m) = (g ^^ b) (f m)"
  by (induction b) (simp_all add: assms)

lemma funpow_commute_2:
  assumes "\<And>m. f (g m) = g (f m)"
  shows "(f ^^ a) ((g ^^ b) m) = (g ^^ b) ((f ^^ a) m)"
proof (induction a)
  case 0
  then show ?case by simp
next
  case (Suc a)
  then show ?case by (simp add: funpow_commute_1[of f g, OF assms])
qed

lemma group_step_commute:
  "group_step rt cfg f x (group_step rt cfg f y m) = group_step rt cfg f y (group_step rt cfg f x m)"
  using funpow_commute_2[of "counter_incr rt (get (itemTransform cfg x) f)"
      "counter_incr rt (get (itemTransform cfg y) f)", OF counter_incr_commute]
  by (simp add: group_step_def Let_def)

lemma fold_group_step_perm:
  assumes "mset xs = mset ys"
  shows "fold (group_step rt cfg f) xs = fold (group_step rt cfg f) ys"
  by (rule fold_multiset_equiv[OF _ assms]) (auto simp: fun_eq_iff group_step_commute)

lemma no_blocked_value_perm:
  "mset xs = mset ys \<Longrightarrow> no_blocked_value cfg xs = no_blocked_value cfg ys"
  using mset_eq_setD[of xs ys] by (simp add: no_blocked_value_def)

lemma calculateSummary_returns_iff:
  "(\<exists>s. calculateSummary rt items cfg = Inr s) = no_blocked_value cfg items"
  using process_items_returns_iff[of cfg "init_summary cfg (length items)" rt items, OF slots_ok_init]
  by (auto simp: calculateSummary_def split: sum.splits)

lemma disjoint_no_blocked_value:
  "group_keys cfg \<inter> sum_keys cfg = {} \<Longrightarrow> no_blocked_value cfg items"
  by (auto simp: no_blocked_value_def group_keys_def)




lemma average_written:
  "{average_key key | key. key \<in> snd ` set (sumFields cfg) \<and> average_key key \<noteq> key} = average_keys cfg"
  by (auto simp: average_keys_def sum_keys_def)

lemma calculateSummary_slot:
  assumes run: "calculateSummary rt items cfg = Inr s"
    and field: "field \<in> set (groupByFields cfg)"
    and nosum: "''by_'' @ field \<notin> sum_keys cfg"
    and noavg: "items \<noteq> [] \<Longrightarrow> ''by_'' @ field \<notin> average_keys cfg"
  shows "s (''by_'' @ field) = Some (Obj (fold (group_step rt cfg field) items Map.empty))"
proof -
  from run obtain s3 where s3: "process_items rt cfg items (init_summary cfg (length items)) = Inr s3"
    and s: "s = (if length items > 0 then fold (average_step rt (length items)) (sumFields cfg) s3 else s3)"
    by (auto simp: calculateSummary_def split: sum.splits)
  have "init_summary cfg (length items) (''by_'' @ field) = Some (Obj Map.empty)"
    using field nosum by (auto simp: init_summary_apply group_keys_def)
  from process_items_slot[OF s3 nosum this]
  have slot3: "s3 (''by_'' @ field) = Some (Obj (fold (group_step rt cfg field) items Map.empty))" .
  have "s (''by_'' @ field) = s3 (''by_'' @ field)"
  proof (cases "items = []")
    case True
    with s show ?thesis by simp
  next
    case False
    with s have "s = fold (average_step rt (length items)) (sumFields cfg) s3" by simp
    moreover have "fold (average_step rt (length items)) (sumFields cfg) s3 (''by_'' @ field) = s3 (''by_'' @ field)"
      using noavg[OF False] by (intro fold_average_frame) (simp add: average_written)
    ultimately show ?thesis by simp
  qed
  with slot3 show ?thesis by simp
qed

lemma calculateSummary_object_slot:
  assumes run: "calculateSummary rt items cfg = Inr s"
    and slot: "s k = Some (Obj m)"
  shows "k \<notin> sum_keys cfg \<and> (items \<noteq> [] \<longrightarrow> k \<notin> average_keys cfg)"
proof -
  from run obtain s3 where s3: "process_items rt cfg items (init_summary cfg (length items)) = Inr s3"
    and s: "s = (if length items > 0 then fold (average_step rt (length items)) (sumFields cfg) s3 else s3)"
    by (auto simp: calculateSummary_def split: sum.splits)
  have ok: "slots_ok cfg s3"
    by (rule process_items_slots_ok[OF s3 slots_ok_init])
  have num: "\<exists>x. fold (average_step rt n) (sumFields cfg) s3 k = Some (Num x)"
    if "k \<in> sum_keys cfg \<or> k \<in> average_keys cfg" for n
  proof -
    from that ok have "k \<in> average_keys cfg \<or> (\<exists>x. s3 k = Some (Num x))"
      by (auto simp: slots_ok_def)
    then show ?thesis
      by (intro fold_average_num) (simp add: average_written)
  qed
  show ?thesis
  proof (cases "items = []")
    case True
    with s slot ok show ?thesis by (auto simp: slots_ok_def)
  next
    case False
    with s have "s = fold (average_step rt (length items)) (sumFields cfg) s3" by simp
    with slot num[of "length items"] False show ?thesis by auto
  qed
qed






section \<open>The summary builders on an empty input\<close>

text \<open>
  C1. With no record left after filtering, neither builder raises: a division by zero
  is not an exception in the language. Both initialise the average to \<open>0\<close> and then
  overwrite it with \<open>Math.round(total / length)\<close> unguarded, so the inventory summary
  reports \<open>average_days_on_lot = NaN\<close> and the incentive summary \<open>average_value = NaN\<close>
  (\<open>Math.round(0 / 0)\<close>), where the generic aggregator, guarded by
  \<open>items.length > 0\<close>, leaves the average out.
\<close>

theorem empty_summaries_report_NaN:
  "average_days_on_lot (calculateInventorySummary rt []) = Num NaN
 \<and> average_value (calculateIncentiveSummary rt []) = Num NaN"
  by (simp add: calculateInventorySummary_def calculateIncentiveSummary_def js_div_def Let_def)

text \<open>Every other aggregate of the two summaries is zero or empty on an empty input.\<close>

lemma empty_summaries_other_aggregates:
  "total_vehicles (calculateInventorySummary rt []) = Num (Fin 0)
 \<and> inventory_summary.by_make (calculateInventorySummary rt []) = Map.empty
 \<and> by_aging (calculateInventorySummary rt []) =
      [''Fresh'' \<mapsto> Num (Fin 0), ''Aging'' \<mapsto> Num (Fin 0), ''Stale'' \<mapsto> Num (Fin 0),
       ''Critical'' \<mapsto> Num (Fin 0)]
 \<and> total_msrp_value (calculateInventorySummary rt []) = Num (Fin 0)
 \<and> inventory_summary.vehicle_lines (calculateInventorySummary rt []) = Map.empty
 \<and> total_incentives (calculateIncentiveSummary rt []) = Num (Fin 0)
 \<and> by_make (calculateIncentiveSummary rt []) = Map.empty
 \<and> by_type (calculateIncentiveSummary rt []) = Map.empty
 \<and> by_status (calculateIncentiveSummary rt []) =
      [''Active'' \<mapsto> Num (Fin 0), ''Upcoming'' \<mapsto> Num (Fin 0), ''Expired'' \<mapsto> Num (Fin 0)]
 \<and> total_value (calculateIncentiveSummary rt []) = Num (Fin 0)
 \<and> vehicle_lines (calculateIncentiveSummary rt []) = Map.empty
 \<and> high_value_incentives (calculateIncentiveSummary rt []) = []
 \<and> expiring_soon (calculateIncentiveSummary rt []) = []"
  by (simp add: calculateInventorySummary_def calculateIncentiveSummary_def Let_def fun_eq_iff)

text \<open>The same through \<open>fetch_incentive_data\<close>: a file that holds the empty array gives a
  success response whose summary has \<open>average_value = NaN\<close>.\<close>

lemma empty_incentive_file_reports_NaN:
  "\<exists>summary. fetch_incentive_data rt True (Inr (Arr [])) source_path filter_active_only include_expired
       ''summary'' = Some (Obj summary)
     \<and> summary ''average_value'' = Some (Num NaN)
     \<and> summary ''total_incentives'' = Some (Num (Fin 0))"
  by (simp add: fetch_incentive_data_def fetch_incentive_try_def checkFileExists_def
        createResponse_def map_add_def incentive_summary_object_def calculateIncentiveSummary_def
        js_div_def Let_def)

section \<open>The incentive fetch: a malformed payload, and the response envelope\<close>

lemma select_incentives_rejects:
  assumes "\<not> accepted_payload rawData"
  shows "\<exists>msg. msg \<noteq> [] \<and>
    (select_incentives rawData = Inl (Error msg) \<or> select_incentives rawData = Inl (TypeError msg))"
proof (cases rawData)
  case (Obj m)
  with assms show ?thesis
    by (cases "get m ''incentives''") simp_all
qed (use assms in simp_all)

lemma handleError_unclassified:
  assumes "e = Error msg \<or> e = TypeError msg \<or> e = SyntaxError msg" and "msg \<noteq> []"
  shows "handleError rt e =
     [''success'' \<mapsto> Bool False, ''timestamp'' \<mapsto> Str (now_iso rt), ''error'' \<mapsto> Str msg]"
  using assms by (auto simp: handleError_def createResponse_def js_or_def)

text \<open>
  C2, as the code has it. When the file exists and parses to a value that is neither an
  array nor an object with an \<open>incentives\<close> array, the whole operation fails as one batch:
  the response is exactly \<open>{success: false, timestamp, error}\<close> with a non-empty message,
  so it carries no data, no summary and no \<open>errorType\<close>. The exception raised is a plain
  \<open>Error\<close> (a \<open>TypeError\<close> for \<open>null\<close>), not an \<open>AppError\<close>.
\<close>

theorem malformed_payload_fails_unclassified:
  assumes "\<not> accepted_payload rawData"
  shows "\<exists>msg. msg \<noteq> [] \<and>
     fetch_incentive_data rt True (Inr rawData) source_path filter_active_only include_expired =
       [''success'' \<mapsto> Bool False, ''timestamp'' \<mapsto> Str (now_iso rt), ''error'' \<mapsto> Str msg]"
proof -
  from select_incentives_rejects[OF assms] obtain msg where msg: "msg \<noteq> []"
    and sel: "select_incentives rawData = Inl (Error msg) \<or> select_incentives rawData = Inl (TypeError msg)"
    by blast
  then obtain e where e: "select_incentives rawData = Inl e" "e = Error msg \<or> e = TypeError msg"
    by blast
  then have "fetch_incentive_try rt True (Inr rawData) source_path filter_active_only include_expired = Inl e"
    by (simp add: fetch_incentive_try_def checkFileExists_def)
  then have "fetch_incentive_data rt True (Inr rawData) source_path filter_active_only include_expired
      = handleError rt e"
    by (simp add: fetch_incentive_data_def)
  with handleError_unclassified[of e msg rt] e(2) msg show ?thesis
    by auto
qed

theorem malformed_payload_fails_unclassified_witness:
  "\<forall>rt. \<not> accepted_payload (Obj [''foo'' \<mapsto> Arr []])
     \<and> (\<exists>msg. msg \<noteq> [] \<and>
           fetch_incentive_data rt True (Inr (Obj [''foo'' \<mapsto> Arr []])) ''incentives.json'' True False =
             [''success'' \<mapsto> Bool False, ''timestamp'' \<mapsto> Str (now_iso rt), ''error'' \<mapsto> Str msg])"
proof
  fix rt
  have a: "\<not> accepted_payload (Obj [''foo'' \<mapsto> Arr []])"
    by (simp add: get_def)
  from malformed_payload_fails_unclassified[OF a, of rt "''incentives.json''" True False] a
  show "\<not> accepted_payload (Obj [''foo'' \<mapsto> Arr []])
     \<and> (\<exists>msg. msg \<noteq> [] \<and>
           fetch_incentive_data rt True (Inr (Obj [''foo'' \<mapsto> Arr []])) ''incentives.json'' True False =
             [''success'' \<mapsto> Bool False, ''timestamp'' \<mapsto> Str (now_iso rt), ''error'' \<mapsto> Str msg])"
    by blast
qed

text \<open>C2 as stated fails on the payload \<open>{"foo": []}\<close>: the failure response has no
  \<open>errorType\<close>, so none that classifies the error as a validation error.\<close>

theorem malformed_payload_counterexample:
  "\<forall>rt. fetch_incentive_data rt True (Inr (Obj [''foo'' \<mapsto> Arr []])) ''incentives.json'' True False
           ''success'' = Some (Bool False)
     \<and> fetch_incentive_data rt True (Inr (Obj [''foo'' \<mapsto> Arr []])) ''incentives.json'' True False
           ''errorType'' = None
     \<and> fetch_incentive_data rt True (Inr (Obj [''foo'' \<mapsto> Arr []])) ''incentives.json'' True False
           ''errorType'' \<noteq> Some (Str ErrorTypes_VALIDATION)"
  by (simp add: fetch_incentive_data_def fetch_incentive_try_def checkFileExists_def get_def
        handleError_def createResponse_def js_or_def)

text \<open>A success response is the data with \<open>success\<close> and \<open>timestamp\<close> added. Every
  \<open>createResponse(true, {...})\<close> and every \<open>handleError\<close> of the tools has these two
  shapes.\<close>

lemma createResponse_success_call:
  "createResponse rt True data None k =
     (case data k of
        Some v \<Rightarrow> Some v
      | None \<Rightarrow> if k = ''success'' then Some (Bool True)
                else if k = ''timestamp'' then Some (Str (now_iso rt)) else None)"
  by (simp add: createResponse_def map_add_def split: option.splits)



section \<open>The generic aggregator: properties\<close>

text \<open>The definitions a concrete run unfolds.\<close>

lemmas run_simps = calculateSummary_def init_summary_def sum_step_def average_step_def average_key_def
  counter_incr_def incrementCounter_def ToPropertyKey_def js_or_def js_plus_def js_div_def
  number_or_zero_def identity_transform_def Let_def get_def







text \<open>A value for a group field whose \<open>by_\<close> key is a sum key makes the aggregator raise:
  no summary, so no average.\<close>

lemma group_value_on_sum_key_raises:
  "calculateSummary rt [[''x'' \<mapsto> Str ''a'', ''v'' \<mapsto> Num (Fin 1)]] group_key_is_sum_key =
     Inl (TypeError ''Cannot create property on a primitive'')"
  by (simp add: run_simps group_key_is_sum_key_def)

text \<open>
  C6. Let \<open>ys\<close> be a permutation of \<open>xs\<close>. If the aggregator returns on \<open>xs\<close> a summary
  whose \<open>by_<field>\<close> entry is a group map \<open>m\<close>, it returns on \<open>ys\<close> a summary whose
  \<open>by_<field>\<close> entry is the same map \<open>m\<close>. A group map is a map from keys to counts:
  the order in which its keys were inserted is not part of it.
\<close>

theorem group_maps_order_independent:
  assumes perm: "mset xs = mset ys"
    and run: "calculateSummary rt xs cfg = Inr s"
    and field: "field \<in> set (groupByFields cfg)"
    and slot: "s (''by_'' @ field) = Some (Obj m)"
  shows "\<exists>s'. calculateSummary rt ys cfg = Inr s' \<and> s' (''by_'' @ field) = Some (Obj m)"
proof -
  from calculateSummary_object_slot[OF run slot]
  have nosum: "''by_'' @ field \<notin> sum_keys cfg"
    and noavg: "xs \<noteq> [] \<Longrightarrow> ''by_'' @ field \<notin> average_keys cfg" by auto
  from perm have nil: "(ys = []) = (xs = [])"
    using mset_eq_length[OF perm] by auto
  from run have "no_blocked_value cfg xs"
    using calculateSummary_returns_iff[of rt xs cfg] by blast
  then have "no_blocked_value cfg ys"
    using no_blocked_value_perm[OF perm] by simp
  then obtain s' where run': "calculateSummary rt ys cfg = Inr s'"
    using calculateSummary_returns_iff[of rt ys cfg] by blast
  have "s' (''by_'' @ field) = Some (Obj (fold (group_step rt cfg field) ys Map.empty))"
    using noavg nil by (intro calculateSummary_slot[OF run' field nosum]) simp
  moreover have "s (''by_'' @ field) = Some (Obj (fold (group_step rt cfg field) xs Map.empty))"
    using noavg by (intro calculateSummary_slot[OF run field nosum]) simp
  ultimately show ?thesis
    using slot run' fold_group_step_perm[OF perm, of rt cfg field] by simp
qed

theorem group_maps_order_independent_witness:
  "\<forall>rt. mset [honda, toyota, honda] = mset [toyota, honda, honda]
     \<and> ''make'' \<in> set (groupByFields vehicles_config)
     \<and> (\<exists>s. calculateSummary rt [honda, toyota, honda] vehicles_config = Inr s
           \<and> s ''by_make'' = Some (Obj [''Honda'' \<mapsto> Num (Fin 2), ''Toyota'' \<mapsto> Num (Fin 1)]))
     \<and> (\<exists>s'. calculateSummary rt [toyota, honda, honda] vehicles_config = Inr s'
           \<and> s' ''by_make'' = Some (Obj [''Honda'' \<mapsto> Num (Fin 2), ''Toyota'' \<mapsto> Num (Fin 1)]))"
proof
  fix rt
  let ?m = "[''Honda'' \<mapsto> Num (Fin 2), ''Toyota'' \<mapsto> Num (Fin 1)]"
  have perm: "mset [honda, toyota, honda] = mset [toyota, honda, honda]"
    by simp
  have field: "''make'' \<in> set (groupByFields vehicles_config)"
    by (simp add: vehicles_config_def)
  have key: "''by_'' @ ''make'' = ''by_make''"
    by simp
  obtain s where run: "calculateSummary rt [honda, toyota, honda] vehicles_config = Inr s"
    and slot: "s ''by_make'' = Some (Obj ?m)"
    by (simp add: run_simps vehicles_config_def honda_def toyota_def fun_upd_twist)
  from slot have slot': "s (''by_'' @ ''make'') = Some (Obj ?m)"
    unfolding key .
  have "\<exists>s'. calculateSummary rt [toyota, honda, honda] vehicles_config = Inr s'
           \<and> s' ''by_make'' = Some (Obj ?m)"
    using group_maps_order_independent[OF perm run field slot'] unfolding key .
  with perm field run slot
  show "mset [honda, toyota, honda] = mset [toyota, honda, honda]
     \<and> ''make'' \<in> set (groupByFields vehicles_config)
     \<and> (\<exists>s. calculateSummary rt [honda, toyota, honda] vehicles_config = Inr s
           \<and> s ''by_make'' = Some (Obj ?m))
     \<and> (\<exists>s'. calculateSummary rt [toyota, honda, honda] vehicles_config = Inr s'
           \<and> s' ''by_make'' = Some (Obj ?m))"
    by blast
qed

text \<open>Without a collision of keys both runs return and agree on every group map; in
  every configuration the one raises exactly when the other does.\<close>

lemma group_maps_order_independent_all:
  assumes perm: "mset xs = mset ys"
    and disjoint: "group_keys cfg \<inter> (sum_keys cfg \<union> average_keys cfg) = {}"
  shows "\<exists>s s'. calculateSummary rt xs cfg = Inr s \<and> calculateSummary rt ys cfg = Inr s'
     \<and> (\<forall>field \<in> set (groupByFields cfg).
           s (''by_'' @ field) = s' (''by_'' @ field) \<and> (\<exists>m. s (''by_'' @ field) = Some (Obj m)))"
proof -
  from disjoint have dis: "group_keys cfg \<inter> sum_keys cfg = {}" by auto
  obtain s where run: "calculateSummary rt xs cfg = Inr s"
    using calculateSummary_returns_iff[of rt xs cfg] disjoint_no_blocked_value[OF dis] by blast
  obtain s' where run': "calculateSummary rt ys cfg = Inr s'"
    using calculateSummary_returns_iff[of rt ys cfg] disjoint_no_blocked_value[OF dis] by blast
  have "s (''by_'' @ field) = s' (''by_'' @ field) \<and> (\<exists>m. s (''by_'' @ field) = Some (Obj m))"
    if field: "field \<in> set (groupByFields cfg)" for field
  proof -
    from field disjoint have nosum: "''by_'' @ field \<notin> sum_keys cfg"
      and noavg: "''by_'' @ field \<notin> average_keys cfg"
      by (auto simp: group_keys_def)
    have "s (''by_'' @ field) = Some (Obj (fold (group_step rt cfg field) xs Map.empty))"
      using noavg by (intro calculateSummary_slot[OF run field nosum])
    moreover have "s' (''by_'' @ field) = Some (Obj (fold (group_step rt cfg field) ys Map.empty))"
      using noavg by (intro calculateSummary_slot[OF run' field nosum])
    ultimately show ?thesis
      using fold_group_step_perm[OF perm, of rt cfg field] by simp
  qed
  with run run' show ?thesis by blast
qed

lemma calculateSummary_raises_perm:
  assumes "mset xs = mset ys"
  shows "(\<exists>e. calculateSummary rt xs cfg = Inl e) = (\<exists>e. calculateSummary rt ys cfg = Inl e)"
proof -
  have "(\<exists>e. calculateSummary rt zs cfg = Inl e) = (\<not> no_blocked_value cfg zs)" for zs
    using calculateSummary_returns_iff[of rt zs cfg]
    by (cases "calculateSummary rt zs cfg") auto
  then show ?thesis
    using no_blocked_value_perm[OF assms, of cfg] by simp
qed





end
